theory Spec2Isabelle
  imports Main "HOL-Library.Word"
begin

section \<open>The OTP store of the verification server\<close>

text \<open>
  The server keeps one JavaScript \<^verbatim>\<open>Map\<close>, \<^verbatim>\<open>otpStore\<close>, from the email address to an
  object \<^verbatim>\<open>{ otp, expiresAt, attempts }\<close>.  The object is built by the object literal of
  the send handler and is referenced from its own key only, so the store is modelled as a
  partial function from the key to the value of the object.  Times are the integer
  milliseconds of \<^verbatim>\<open>Date.now()\<close>; the handlers read the clock once and take it here as
  the argument \<open>now\<close>.  Strings are lists of code units below 256.
\<close>

record otp_record =
  otp :: string
  expiresAt :: int
  attempts :: int

type_synonym otp_store = "string \<rightharpoonup> otp_record"

subsection \<open>Library functions of the platform\<close>

text \<open>
  \<^verbatim>\<open>Number.prototype.toString()\<close> on an integer: its decimal digits, with a minus sign
  when negative.
\<close>

fun digit_chars :: "nat \<Rightarrow> string" where
  "digit_chars n =
     (if n < 10 then [''0123456789'' ! n]
      else digit_chars (n div 10) @ [''0123456789'' ! (n mod 10)])"

definition toString :: "int \<Rightarrow> string" where
  "toString n = (if n < 0 then CHR ''-'' # digit_chars (nat (- n)) else digit_chars (nat n))"

text \<open>
  \<^verbatim>\<open>crypto.randomInt(min, max)\<close> returns an integer \<open>n\<close> with \<open>min \<le> n < max\<close>: the upper
  bound is exclusive.  The argument \<open>e\<close> is the raw value the random source delivered to
  this call; it is reduced into the range of \<open>max - min\<close> values.
\<close>

definition randomInt :: "int \<Rightarrow> int \<Rightarrow> nat \<Rightarrow> int" where
  "randomInt lo hi e = lo + int e mod (hi - lo)"

text \<open>
  \<^verbatim>\<open>crypto.randomBytes(n)\<close> returns \<open>n\<close> bytes of the random source; \<open>e\<close> holds them as
  base-256 digits, lowest first.  \<^verbatim>\<open>Buffer.toString('hex')\<close> writes each byte as two
  lower-case hexadecimal digits, high nibble first.
\<close>

fun randomBytes :: "nat \<Rightarrow> nat \<Rightarrow> 8 word list" where
  "randomBytes 0 e = []"
| "randomBytes (Suc n) e = of_nat (e mod 256) # randomBytes n (e div 256)"

definition hex_digit :: "nat \<Rightarrow> char" where
  "hex_digit k = ''0123456789abcdef'' ! k"

definition byte_hex :: "8 word \<Rightarrow> string" where
  "byte_hex b = [hex_digit (unat b div 16), hex_digit (unat b mod 16)]"

definition toString_hex :: "8 word list \<Rightarrow> string" where
  "toString_hex bs = concat (map byte_hex bs)"

text \<open>
  The test \<^verbatim>\<open>/^[^\s@]+@[^\s@]+\.[^\s@]+$/\<close>: the string is \<open>a @ b . c\<close> with \<open>a\<close>, \<open>b\<close>, \<open>c\<close>
  non-empty and free of white space and of \<open>@\<close>.  Hence there is exactly one \<open>@\<close>, and
  the part after it has a dot that is neither its first nor its last character.
\<close>

definition is_space :: "char \<Rightarrow> bool" where
  "is_space c = (c \<in> set [CHR 0x09, CHR 0x0A, CHR 0x0B, CHR 0x0C, CHR 0x0D, CHR 0x20, CHR 0xA0])"

definition not_space_or_at :: "char \<Rightarrow> bool" where
  "not_space_or_at c = (\<not> is_space c \<and> c \<noteq> CHR ''@'')"

definition emailRegex_test :: "string \<Rightarrow> bool" where
  "emailRegex_test email =
     (let name = takeWhile (\<lambda>c. c \<noteq> CHR ''@'') email;
          rest = drop (length name + 1) email
      in name \<noteq> [] \<and> length name < length email
         \<and> list_all not_space_or_at name \<and> list_all not_space_or_at rest
         \<and> CHR ''.'' \<in> set (butlast (tl rest)))"

subsection \<open>Generating a code\<close>

text \<open>\<^verbatim>\<open>function generateOTP() { return crypto.randomInt(100000, 999999).toString(); }\<close>\<close>

definition generateOTP :: "nat \<Rightarrow> string" where
  "generateOTP e = toString (randomInt 100000 999999 e)"

definition is_digit :: "char \<Rightarrow> bool" where
  "is_digit c = (c \<in> set ''0123456789'')"

definition is_hex_digit :: "char \<Rightarrow> bool" where
  "is_hex_digit c = (c \<in> set ''0123456789abcdef'')"

text \<open>The number a string of decimal digits denotes (used to tell codes apart).\<close>

definition digit_value :: "string \<Rightarrow> nat" where
  "digit_value s = foldl (\<lambda>a c. 10 * a + (of_char c - 48)) 0 s"

subsection \<open>The handler of POST /api/send-otp\<close>

datatype send_response =
  EmailRequired
| InvalidEmailFormat
| OtpGenerated string

text \<open>
  The handler rejects a missing address and one that fails the format test; otherwise it
  generates the code, stores the record and answers with success whether or not the mail
  could be sent.  The code is the handler's output (it is logged and mailed).
\<close>

definition send_otp :: "int \<Rightarrow> nat \<Rightarrow> string \<Rightarrow> otp_store \<Rightarrow> send_response \<times> otp_store" where
  "send_otp now e email store =
     (if email = [] then (EmailRequired, store)
      else if \<not> emailRegex_test email then (InvalidEmailFormat, store)
      else
        let code = generateOTP e;
            expires = now + 5 * 60 * 1000
        in (OtpGenerated code,
            store(email \<mapsto> \<lparr>otp = code, expiresAt = expires, attempts = 0\<rparr>)))"

subsection \<open>The handler of POST /api/verify-otp\<close>

datatype verify_response =
  MissingFields
| NotFound
| Expired
| AttemptsExhausted
| Success string
| Invalid int

text \<open>
  \<open>MissingFields\<close> is the answer "Email and OTP are required", \<open>NotFound\<close> is "No OTP
  found for this email", \<open>Expired\<close> is "OTP has expired", \<open>AttemptsExhausted\<close> is "Maximum
  OTP attempts exceeded", \<open>Success\<close> carries the token and \<open>Invalid\<close> the field
  \<^verbatim>\<open>remainingAttempts\<close>.  The checks are in the order of the source; the counter is
  incremented before the comparison, and the record is written back.  The fields of the
  request are strings, an absent field being the empty one (the source's check refuses
  both).  The copy of the handler that validates the request by a schema has the same body
  from the store lookup on.
\<close>

definition verify_otp ::
  "int \<Rightarrow> nat \<Rightarrow> string \<Rightarrow> string \<Rightarrow> otp_store \<Rightarrow> verify_response \<times> otp_store" where
  "verify_otp now e email code store =
     (if email = [] \<or> code = [] then (MissingFields, store)
      else case store email of
        None \<Rightarrow> (NotFound, store)
      | Some storedData \<Rightarrow>
          if now > expiresAt storedData then (Expired, store(email := None))
          else if attempts storedData \<ge> 3 then (AttemptsExhausted, store(email := None))
          else
            let storedData' = storedData\<lparr>attempts := attempts storedData + 1\<rparr>;
                store' = store(email \<mapsto> storedData')
            in if otp storedData' = code
               then (Success (toString_hex (randomBytes 32 e)), store'(email := None))
               else
                 let remainingAttempts = 3 - attempts storedData'
                 in (Invalid (if remainingAttempts > 0 then remainingAttempts else 0), store'))"

subsection \<open>The verify handler of the deployment variant\<close>

text \<open>
  The variant of the server kept beside the client script compares first and counts only
  failures; at the third failure it deletes the record and answers "Too many failed
  attempts" (no \<^verbatim>\<open>remainingAttempts\<close> field).  Its \<open>InvalidCount\<close> carries the field
  \<^verbatim>\<open>attempts\<close>, the failures so far.  It has no check of the request fields.
\<close>

datatype variant_response =
  NotFoundOrExpired
| OtpExpired
| Verified
| TooManyFailed
| InvalidCount int

definition verify_otp_variant ::
  "int \<Rightarrow> string \<Rightarrow> string \<Rightarrow> otp_store \<Rightarrow> variant_response \<times> otp_store" where
  "verify_otp_variant now email code store =
     (case store email of
        None \<Rightarrow> (NotFoundOrExpired, store)
      | Some storedData \<Rightarrow>
          if now > expiresAt storedData then (OtpExpired, store(email := None))
          else if otp storedData = code then (Verified, store(email := None))
          else
            let storedData' = storedData\<lparr>attempts := attempts storedData + 1\<rparr>;
                store' = store(email \<mapsto> storedData')
            in if attempts storedData' \<ge> 3 then (TooManyFailed, store'(email := None))
               else (InvalidCount (attempts storedData'), store'))"

subsection \<open>The states the server can be in\<close>

text \<open>The store is empty at start-up and changes only through the two handlers.\<close>

inductive reachable :: "otp_store \<Rightarrow> bool" where
  start: "reachable Map.empty"
| send: "reachable store \<Longrightarrow> reachable (snd (send_otp now e email store))"
| verify: "reachable store \<Longrightarrow> reachable (snd (verify_otp now e email code store))"

subsection \<open>The handlers on object references\<close>

text \<open>
  In the source the map holds references: \<^verbatim>\<open>otpStore.get(email)\<close> returns the object,
  \<^verbatim>\<open>storedData.attempts += 1\<close> changes it in place and \<^verbatim>\<open>otpStore.set(email, storedData)\<close>
  stores the same reference again.  Here \<open>otpStore\<close> maps a key to a reference, \<open>heap\<close>
  maps a reference to the object, and \<open>fresh\<close> is the reference the next object literal
  gets.  A deleted key leaves its object in the heap, unreferenced.  \<open>stored\<close> is the
  record a key leads to; the value-level handlers above are these handlers seen through
  \<open>stored\<close> (lemmas \<open>send_otp_ref_refines\<close> and \<open>verify_otp_ref_refines\<close> below).
\<close>

record server_state =
  otpStore :: "string \<rightharpoonup> nat"
  heap :: "nat \<rightharpoonup> otp_record"
  fresh :: nat

definition initial_state :: server_state where
  "initial_state = \<lparr>otpStore = Map.empty, heap = Map.empty, fresh = 0\<rparr>"

definition stored :: "server_state \<Rightarrow> otp_store" where
  "stored st email = (case otpStore st email of None \<Rightarrow> None | Some a \<Rightarrow> heap st a)"

definition send_otp_ref ::
  "int \<Rightarrow> nat \<Rightarrow> string \<Rightarrow> server_state \<Rightarrow> send_response \<times> server_state" where
  "send_otp_ref now e email st =
     (if email = [] then (EmailRequired, st)
      else if \<not> emailRegex_test email then (InvalidEmailFormat, st)
      else
        let code = generateOTP e;
            expires = now + 5 * 60 * 1000;
            a = fresh st
        in (OtpGenerated code,
            st\<lparr>otpStore := (otpStore st)(email \<mapsto> a),
               heap := (heap st)(a \<mapsto> \<lparr>otp = code, expiresAt = expires, attempts = 0\<rparr>),
               fresh := a + 1\<rparr>))"

definition verify_otp_ref ::
  "int \<Rightarrow> nat \<Rightarrow> string \<Rightarrow> string \<Rightarrow> server_state \<Rightarrow> verify_response \<times> server_state" where
  "verify_otp_ref now e email code st =
     (if email = [] \<or> code = [] then (MissingFields, st)
      else case otpStore st email of
        None \<Rightarrow> (NotFound, st)
      | Some a \<Rightarrow>
         (case heap st a of
            None \<Rightarrow> (NotFound, st)
          | Some storedData \<Rightarrow>
              if now > expiresAt storedData
              then (Expired, st\<lparr>otpStore := (otpStore st)(email := None)\<rparr>)
              else if attempts storedData \<ge> 3
              then (AttemptsExhausted, st\<lparr>otpStore := (otpStore st)(email := None)\<rparr>)
              else
                let storedData' = storedData\<lparr>attempts := attempts storedData + 1\<rparr>;
                    st' = st\<lparr>heap := (heap st)(a \<mapsto> storedData'),
                             otpStore := (otpStore st)(email \<mapsto> a)\<rparr>
                in if otp storedData' = code
                   then (Success (toString_hex (randomBytes 32 e)),
                         st'\<lparr>otpStore := (otpStore st')(email := None)\<rparr>)
                   else
                     let remainingAttempts = 3 - attempts storedData'
                     in (Invalid (if remainingAttempts > 0 then remainingAttempts else 0), st')))"

inductive reachable_ref :: "server_state \<Rightarrow> bool" where
  start_ref: "reachable_ref initial_state"
| send_ref: "reachable_ref st \<Longrightarrow> reachable_ref (snd (send_otp_ref now e email st))"
| verify_ref: "reachable_ref st \<Longrightarrow> reachable_ref (snd (verify_otp_ref now e email code st))"

text \<open>No two keys lead to the same object, and every key leads to an allocated one.\<close>

definition unshared :: "server_state \<Rightarrow> bool" where
  "unshared st =
     ((\<forall>k a. otpStore st k = Some a \<longrightarrow> a < fresh st \<and> heap st a \<noteq> None)
      \<and> (\<forall>k k' a. otpStore st k = Some a \<and> otpStore st k' = Some a \<longrightarrow> k = k'))"

section \<open>Auxiliary facts\<close>

declare digit_chars.simps [simp del]

subsection \<open>Decimal digits\<close>

lemma below_ten: "d < 10 \<Longrightarrow> d \<in> {0, 1, 2, 3, 4, 5, 6, 7, 8, 9 :: nat}"
  by auto

lemma digit_nth_is_digit: "n < 10 \<Longrightarrow> is_digit (''0123456789'' ! n)"
  using below_ten [of n] by (auto simp: is_digit_def)

lemma digit_nth_code: "n < 10 \<Longrightarrow> of_char (''0123456789'' ! n) = 48 + n"
  using below_ten [of n] by auto

lemma digit_nth_zero: "n < 10 \<Longrightarrow> 0 < n \<Longrightarrow> ''0123456789'' ! n \<noteq> CHR ''0''"
  using below_ten [of n] by auto

lemma digit_chars_nonempty: "digit_chars n \<noteq> []"
  by (subst digit_chars.simps) simp

lemma digit_chars_all_digits: "list_all is_digit (digit_chars n)"
proof (induction n rule: digit_chars.induct)
  case (1 n)
  show ?case
  proof (cases "n < 10")
    case True
    then show ?thesis
      by (subst digit_chars.simps) (simp add: digit_nth_is_digit)
  next
    case False
    with 1 show ?thesis
      by (subst digit_chars.simps) (simp add: digit_nth_is_digit)
  qed
qed

lemma digit_chars_hd: "0 < n \<Longrightarrow> hd (digit_chars n) \<noteq> CHR ''0''"
proof (induction n rule: digit_chars.induct)
  case (1 n)
  show ?case
  proof (cases "n < 10")
    case True
    then have "digit_chars n = [''0123456789'' ! n]"
      by (subst digit_chars.simps) simp
    moreover from True 1(2) have "''0123456789'' ! n \<noteq> CHR ''0''"
      by (rule digit_nth_zero)
    ultimately show ?thesis by (metis list.sel(1))
  next
    case False
    then have "0 < n div 10" by simp
    with 1 False have "hd (digit_chars (n div 10)) \<noteq> CHR ''0''" by simp
    with False show ?thesis
      by (subst digit_chars.simps) (simp add: digit_chars_nonempty)
  qed
qed

lemma digit_chars_length_lower: "10 ^ k \<le> n \<Longrightarrow> k < length (digit_chars n)"
proof (induction n arbitrary: k rule: digit_chars.induct)
  case (1 n)
  show ?case
  proof (cases "n < 10")
    case True
    have "k = 0"
    proof (cases k)
      case 0
      then show ?thesis .
    next
      case (Suc j)
      have "(1::nat) \<le> 10 ^ j" by simp
      then have "(10::nat) \<le> 10 * 10 ^ j" by simp
      with 1(2) True Suc show ?thesis by simp
    qed
    with True show ?thesis
      by (subst digit_chars.simps) simp
  next
    case False
    show ?thesis
    proof (cases k)
      case 0
      then show ?thesis using digit_chars_nonempty [of n] by (cases "digit_chars n") auto
    next
      case (Suc j)
      with 1(2) have "10 ^ j \<le> n div 10" by simp
      with 1(1) False have "j < length (digit_chars (n div 10))" by simp
      with False Suc show ?thesis
        by (subst digit_chars.simps) simp
    qed
  qed
qed

lemma digit_chars_length_upper: "n < 10 ^ k \<Longrightarrow> 0 < k \<Longrightarrow> length (digit_chars n) \<le> k"
proof (induction n arbitrary: k rule: digit_chars.induct)
  case (1 n)
  show ?case
  proof (cases "n < 10")
    case True
    with 1 show ?thesis
      by (subst digit_chars.simps) simp
  next
    case False
    from 1(3) obtain j where k: "k = Suc j" by (cases k) auto
    with 1(2) have lt: "n div 10 < 10 ^ j"
      by (simp add: div_less_iff_less_mult mult.commute)
    have "0 < j"
    proof (rule ccontr)
      assume "\<not> 0 < j"
      with lt have "n div 10 = 0" by simp
      with False show False by simp
    qed
    with 1(1) False lt have "length (digit_chars (n div 10)) \<le> j" by simp
    with False k show ?thesis
      by (subst digit_chars.simps) simp
  qed
qed

lemma digit_value_snoc: "digit_value (s @ [c]) = 10 * digit_value s + (of_char c - 48)"
  by (simp add: digit_value_def)

lemma digit_value_digit_chars: "digit_value (digit_chars n) = n"
proof (induction n rule: digit_chars.induct)
  case (1 n)
  show ?case
  proof (cases "n < 10")
    case True
    then show ?thesis
      by (subst digit_chars.simps) (simp add: digit_value_def digit_nth_code)
  next
    case False
    with 1 have "digit_value (digit_chars (n div 10)) = n div 10" by simp
    with False show ?thesis
      by (subst digit_chars.simps) (simp add: digit_value_snoc digit_nth_code)
  qed
qed

subsection \<open>The random integer and the generated code\<close>

lemma randomInt_bounds:
  assumes "lo < hi"
  shows "lo \<le> randomInt lo hi e \<and> randomInt lo hi e < hi"
proof -
  from assms have "0 < hi - lo" by simp
  then have "0 \<le> int e mod (hi - lo)" and "int e mod (hi - lo) < hi - lo"
    by (rule pos_mod_sign, rule pos_mod_bound)
  then show ?thesis by (simp add: randomInt_def)
qed

lemma randomInt_onto: "lo \<le> n \<Longrightarrow> n < hi \<Longrightarrow> randomInt lo hi (nat (n - lo)) = n"
  by (simp add: randomInt_def)

lemma generateOTP_digits:
  "generateOTP e = digit_chars (nat (randomInt 100000 999999 e))"
  using randomInt_bounds [of 100000 999999 e] by (simp add: generateOTP_def toString_def)

lemma generateOTP_length: "length (generateOTP e) = 6"
proof -
  let ?n = "nat (randomInt 100000 999999 e)"
  have b: "100000 \<le> ?n" "?n < 999999"
    using randomInt_bounds [of 100000 999999 e] by auto
  have "10 ^ 5 \<le> ?n" using b by simp
  then have "5 < length (digit_chars ?n)" by (rule digit_chars_length_lower)
  moreover have "?n < 10 ^ 6" using b by simp
  then have "length (digit_chars ?n) \<le> 6" by (rule digit_chars_length_upper) simp
  ultimately show ?thesis by (simp add: generateOTP_digits)
qed

lemma generateOTP_nonempty: "generateOTP e \<noteq> []"
  using generateOTP_length [of e] by auto

lemma generateOTP_reaches:
  assumes "100000 \<le> n" and "n < 999999"
  shows "generateOTP (nat (n - 100000)) = toString n"
  using assms by (simp add: generateOTP_def randomInt_onto)

subsection \<open>The token\<close>

lemma randomBytes_length: "length (randomBytes n e) = n"
  by (induction n arbitrary: e) auto

lemma randomBytes_onto: "\<exists>e. randomBytes (length bs) e = bs"
proof (induction bs)
  case Nil
  then show ?case by simp
next
  case (Cons b bs)
  then obtain e where e: "randomBytes (length bs) e = bs" by blast
  have "unat b < 256"
    using unsigned_less [of b] by simp
  then have "randomBytes (length (b # bs)) (unat b + 256 * e) = b # bs"
    using e by simp
  then show ?case by blast
qed

lemma toString_hex_length: "length (toString_hex bs) = 2 * length bs"
  by (induction bs) (auto simp: toString_hex_def byte_hex_def)

lemma hex_digit_is_hex: "k < 16 \<Longrightarrow> is_hex_digit (hex_digit k)"
  unfolding hex_digit_def is_hex_digit_def by (rule nth_mem) simp

lemma toString_hex_chars: "list_all is_hex_digit (toString_hex bs)"
proof (induction bs)
  case Nil
  then show ?case by (simp add: toString_hex_def)
next
  case (Cons b bs)
  have "unat b div 16 < 16"
    using unsigned_less [of b] by (simp add: div_less_iff_less_mult)
  with Cons show ?case
    using hex_digit_is_hex [of "unat b div 16"] hex_digit_is_hex [of "unat b mod 16"]
    by (simp add: toString_hex_def byte_hex_def)
qed

lemma token_shape:
  "length (randomBytes 32 e) = 32
   \<and> length (toString_hex (randomBytes 32 e)) = 64
   \<and> list_all is_hex_digit (toString_hex (randomBytes 32 e))"
  by (simp add: randomBytes_length toString_hex_length toString_hex_chars)

subsection \<open>The format test accepts the language of the regular expression\<close>

lemma dot_not_space_or_at: "not_space_or_at (CHR ''.'')"
  by (simp add: not_space_or_at_def is_space_def)

lemma emailRegex_test_intro:
  assumes "a \<noteq> []" and "b \<noteq> []" and "c \<noteq> []"
    and "list_all not_space_or_at a" and "list_all not_space_or_at b"
    and "list_all not_space_or_at c"
  shows "emailRegex_test (a @ ''@'' @ b @ ''.'' @ c)"
proof -
  let ?s = "a @ ''@'' @ b @ ''.'' @ c"
  have "\<And>x. x \<in> set a \<Longrightarrow> x \<noteq> CHR ''@''"
    using assms(4) by (auto simp: list_all_iff not_space_or_at_def)
  then have name: "takeWhile (\<lambda>c. c \<noteq> CHR ''@'') ?s = a"
    by (simp add: takeWhile_append2)
  then have rest: "drop (length (takeWhile (\<lambda>c. c \<noteq> CHR ''@'') ?s) + 1) ?s = b @ ''.'' @ c"
    by simp
  obtain b0 b' where b: "b = b0 # b'"
    using assms(2) by (cases b) auto
  have "butlast (tl (b @ ''.'' @ c)) = b' @ CHR ''.'' # butlast c"
    using assms(3) by (simp add: b butlast_append)
  then have dot: "CHR ''.'' \<in> set (butlast (tl (b @ ''.'' @ c)))"
    by simp
  have all: "list_all not_space_or_at (b @ ''.'' @ c)"
    using assms(5,6) dot_not_space_or_at by simp
  show ?thesis
    unfolding emailRegex_test_def Let_def rest
    unfolding name
    using assms(1,4) all dot by simp
qed

lemma emailRegex_test_elim:
  assumes "emailRegex_test s"
  shows "\<exists>a b c. s = a @ ''@'' @ b @ ''.'' @ c \<and> a \<noteq> [] \<and> b \<noteq> [] \<and> c \<noteq> []
           \<and> list_all not_space_or_at a \<and> list_all not_space_or_at b
           \<and> list_all not_space_or_at c"
proof -
  define a where "a = takeWhile (\<lambda>c. c \<noteq> CHR ''@'') s"
  define r where "r = drop (length a + 1) s"
  from assms have a: "a \<noteq> []" "length a < length s" "list_all not_space_or_at a"
    and r: "list_all not_space_or_at r" "CHR ''.'' \<in> set (butlast (tl r))"
    by (simp_all add: emailRegex_test_def Let_def a_def r_def)
  have "dropWhile (\<lambda>c. c \<noteq> CHR ''@'') s \<noteq> []"
    using a(2) unfolding a_def by (metis append_Nil2 less_irrefl takeWhile_dropWhile_id)
  then obtain x xs where d: "dropWhile (\<lambda>c. c \<noteq> CHR ''@'') s = x # xs"
    by (cases "dropWhile (\<lambda>c. c \<noteq> CHR ''@'') s") auto
  then have "x = CHR ''@''"
    using hd_dropWhile [of "\<lambda>c. c \<noteq> CHR ''@''" s] by auto
  with d have s: "s = a @ CHR ''@'' # xs"
    unfolding a_def by (metis takeWhile_dropWhile_id)
  then have rx: "r = xs"
    by (simp add: r_def)
  from r(2) obtain u v where uv: "butlast (tl r) = u @ CHR ''.'' # v"
    by (auto dest: split_list)
  then have tl_ne: "tl r \<noteq> []" by auto
  then obtain r0 where r0: "r = r0 # tl r"
    by (cases r) auto
  define l where "l = last (tl r)"
  have "tl r = butlast (tl r) @ [l]"
    using tl_ne by (simp add: l_def)
  with uv have "tl r = u @ CHR ''.'' # (v @ [l])"
    by simp
  with r0 have split: "r = (r0 # u) @ CHR ''.'' # (v @ [l])"
    by simp
  with r(1) have "list_all not_space_or_at (r0 # u)" "list_all not_space_or_at (v @ [l])"
    by simp_all
  moreover from s rx split have "s = a @ ''@'' @ (r0 # u) @ ''.'' @ (v @ [l])"
    by simp
  ultimately show ?thesis
    using a(1,3) by blast
qed

lemma emailRegex_test_iff:
  "emailRegex_test s \<longleftrightarrow>
     (\<exists>a b c. s = a @ ''@'' @ b @ ''.'' @ c \<and> a \<noteq> [] \<and> b \<noteq> [] \<and> c \<noteq> []
        \<and> list_all not_space_or_at a \<and> list_all not_space_or_at b
        \<and> list_all not_space_or_at c)"
  using emailRegex_test_intro emailRegex_test_elim by blast

subsection \<open>Accepted requests and reachable stores\<close>

lemma send_otp_accepts:
  assumes "email \<noteq> []" and "emailRegex_test email"
  shows "send_otp now e email store =
           (OtpGenerated (generateOTP e),
            store(email \<mapsto> \<lparr>otp = generateOTP e, expiresAt = now + 300000, attempts = 0\<rparr>))"
  using assms by (simp add: send_otp_def Let_def)

lemma reachable_records:
  assumes "reachable store" and "store k = Some r"
  shows "k \<noteq> [] \<and> emailRegex_test k \<and> length (otp r) = 6 \<and> 0 \<le> attempts r \<and> attempts r \<le> 3"
  using assms
proof (induction arbitrary: k r rule: reachable.induct)
  case start
  then show ?case by simp
next
  case (send store now e email)
  then show ?case
    by (auto simp: send_otp_def Let_def generateOTP_length split: if_splits)
next
  case (verify store now e email code)
  then show ?case
    by (auto simp: verify_otp_def Let_def split: if_splits option.splits)
qed

subsection \<open>The value-level handlers are the reference-level handlers\<close>

lemma unshared_initial: "unshared initial_state"
  by (simp add: unshared_def initial_state_def)

lemma unshared_send: "unshared st \<Longrightarrow> unshared (snd (send_otp_ref now e email st))"
  unfolding unshared_def send_otp_ref_def Let_def
  by (auto simp: less_Suc_eq split: if_splits)

lemma unshared_verify: "unshared st \<Longrightarrow> unshared (snd (verify_otp_ref now e email code st))"
  unfolding unshared_def verify_otp_ref_def Let_def
  by (auto split: if_splits option.splits)

lemma reachable_ref_unshared: "reachable_ref st \<Longrightarrow> unshared st"
  by (induction rule: reachable_ref.induct)
     (simp_all add: unshared_initial unshared_send unshared_verify)

lemma send_otp_ref_refines:
  assumes "unshared st"
  shows "fst (send_otp_ref now e email st) = fst (send_otp now e email (stored st))"
    and "stored (snd (send_otp_ref now e email st)) = snd (send_otp now e email (stored st))"
proof -
  show "fst (send_otp_ref now e email st) = fst (send_otp now e email (stored st))"
    by (simp add: send_otp_ref_def send_otp_def Let_def)
  have "stored (snd (send_otp_ref now e email st)) k = snd (send_otp now e email (stored st)) k"
    for k
    using assms
    by (auto simp: send_otp_ref_def send_otp_def Let_def stored_def unshared_def
        split: option.splits)
  then show "stored (snd (send_otp_ref now e email st)) = snd (send_otp now e email (stored st))"
    by (rule ext)
qed

lemma verify_otp_ref_refines:
  assumes "unshared st"
  shows "fst (verify_otp_ref now e email code st) = fst (verify_otp now e email code (stored st))"
    and "stored (snd (verify_otp_ref now e email code st))
           = snd (verify_otp now e email code (stored st))"
proof -
  show "fst (verify_otp_ref now e email code st) = fst (verify_otp now e email code (stored st))"
    using assms
    by (auto simp: verify_otp_ref_def verify_otp_def Let_def stored_def unshared_def
        split: option.splits)
  have "stored (snd (verify_otp_ref now e email code st)) k
          = snd (verify_otp now e email code (stored st)) k" for k
    using assms
    by (auto simp: verify_otp_ref_def verify_otp_def Let_def stored_def unshared_def
        split: option.splits)
  then show "stored (snd (verify_otp_ref now e email code st))
           = snd (verify_otp now e email code (stored st))"
    by (rule ext)
qed

lemma reachable_ref_stored: "reachable_ref st \<Longrightarrow> reachable (stored st)"
proof (induction rule: reachable_ref.induct)
  case start_ref
  have "stored initial_state = Map.empty"
    by (rule ext) (simp add: stored_def initial_state_def)
  then show ?case by (simp add: reachable.start)
next
  case (send_ref st now e email)
  then show ?case
    by (simp add: send_otp_ref_refines(2) [OF reachable_ref_unshared] reachable.send)
next
  case (verify_ref st now e email code)
  then show ?case
    by (simp add: verify_otp_ref_refines(2) [OF reachable_ref_unshared] reachable.verify)
qed

subsection \<open>Each handler works on one key\<close>

lemma send_otp_frame: "x \<noteq> y \<Longrightarrow> snd (send_otp now e x store) y = store y"
  by (simp add: send_otp_def Let_def)

lemma verify_otp_frame: "x \<noteq> y \<Longrightarrow> snd (verify_otp now e x code store) y = store y"
  by (simp add: verify_otp_def Let_def split: option.splits)

lemma verify_otp_local:
  assumes "store2 x = store x"
  shows "fst (verify_otp now e x code store2) = fst (verify_otp now e x code store)"
    and "snd (verify_otp now e x code store2) x = snd (verify_otp now e x code store) x"
  using assms by (simp_all add: verify_otp_def Let_def split: option.splits)

lemma send_otp_local:
  assumes "store2 x = store x"
  shows "fst (send_otp now e x store2) = fst (send_otp now e x store)"
    and "snd (send_otp now e x store2) x = snd (send_otp now e x store) x"
  using assms by (auto simp: send_otp_def Let_def)

section \<open>The claims\<close>

text \<open>
  Claim C1, as the code has it.  A failed comparison that brings the counter of a live record
  to 3 answers \<open>Invalid\<close> with \<^verbatim>\<open>remainingAttempts\<close> 0 and keeps the record, now with
  \<open>attempts = 3\<close>; it is the next call (before expiry) that deletes it, answering
  \<open>AttemptsExhausted\<close> whatever code it carries.  The deployment variant deletes the record
  in the failing call itself and answers \<open>TooManyFailed\<close>.  In every store the server can
  reach the counter of a record is at most 3.
\<close>

theorem limit_reaching_failure_keeps_record:
  assumes "store email = Some r" and "now \<le> expiresAt r"
    and "attempts r < 3" and "attempts r + 1 = 3"
    and "code \<noteq> otp r" and "email \<noteq> []" and "code \<noteq> []"
    and "now' \<le> expiresAt r" and "code' \<noteq> []"
    and "reachable s" and "s k = Some r'"
  shows "verify_otp now e email code store = (Invalid 0, store(email \<mapsto> r\<lparr>attempts := 3\<rparr>))
    \<and> verify_otp now' e' email code' (store(email \<mapsto> r\<lparr>attempts := 3\<rparr>))
          = (AttemptsExhausted, store(email := None))
    \<and> verify_otp_variant now email code store = (TooManyFailed, store(email := None))
    \<and> attempts r' \<le> 3"
proof -
  from assms(4) have two: "attempts r = 2" by simp
  have "verify_otp now e email code store = (Invalid 0, store(email \<mapsto> r\<lparr>attempts := 3\<rparr>))"
    using assms(1,2,5,6,7) two by (auto simp: verify_otp_def Let_def)
  moreover have "verify_otp now' e' email code' (store(email \<mapsto> r\<lparr>attempts := 3\<rparr>))
          = (AttemptsExhausted, store(email := None))"
    using assms(6,8,9) by (simp add: verify_otp_def)
  moreover have "verify_otp_variant now email code store = (TooManyFailed, store(email := None))"
    using assms(1,2,5) two by (auto simp: verify_otp_variant_def Let_def)
  moreover have "attempts r' \<le> 3"
    using reachable_records [OF assms(10,11)] by simp
  ultimately show ?thesis by blast
qed

theorem limit_reaching_failure_keeps_record_witness:
  "verify_otp 1000 0 ''a@b.c'' ''000000''
     [''a@b.c'' \<mapsto> \<lparr>otp = ''100000'', expiresAt = 300000, attempts = 2\<rparr>]
     = (Invalid 0, [''a@b.c'' \<mapsto> \<lparr>otp = ''100000'', expiresAt = 300000, attempts = 3\<rparr>])
   \<and> verify_otp 2000 0 ''a@b.c'' ''100000''
         [''a@b.c'' \<mapsto> \<lparr>otp = ''100000'', expiresAt = 300000, attempts = 3\<rparr>]
       = (AttemptsExhausted, Map.empty)
   \<and> verify_otp_variant 1000 ''a@b.c'' ''000000''
         [''a@b.c'' \<mapsto> \<lparr>otp = ''100000'', expiresAt = 300000, attempts = 2\<rparr>]
       = (TooManyFailed, Map.empty)
   \<and> attempts \<lparr>otp = ''100000'', expiresAt = 300000, attempts = 0\<rparr> \<le> 3"
proof -
  have r: "reachable (snd (send_otp 0 0 ''a@b.c'' Map.empty))"
    by (rule reachable.send [OF reachable.start])
  have s: "snd (send_otp 0 0 ''a@b.c'' Map.empty) ''a@b.c''
             = Some \<lparr>otp = ''100000'', expiresAt = 300000, attempts = 0\<rparr>"
    by (simp add: send_otp_def Let_def emailRegex_test_def not_space_or_at_def is_space_def
        generateOTP_def randomInt_def toString_def digit_chars.simps)
  show ?thesis
    using limit_reaching_failure_keeps_record
      [of "[''a@b.c'' \<mapsto> \<lparr>otp = ''100000'', expiresAt = 300000, attempts = 2\<rparr>]"
          "''a@b.c''" "\<lparr>otp = ''100000'', expiresAt = 300000, attempts = 2\<rparr>" 1000
          "''000000''" 2000 "''100000''" "snd (send_otp 0 0 ''a@b.c'' Map.empty)" "''a@b.c''"
          "\<lparr>otp = ''100000'', expiresAt = 300000, attempts = 0\<rparr>" 0 0, OF _ _ _ _ _ _ _ _ _ r s]
    by simp
qed

text \<open>
  Against C1 as stated: after a code is issued and three wrong codes are tried, the third
  answer is \<open>Invalid 0\<close> and the record is still stored, with \<open>attempts = 3\<close>.
\<close>

theorem record_left_at_limit_counterexample:
  "verify_otp 3 0 ''a@b.c'' ''000000''
     (snd (verify_otp 2 0 ''a@b.c'' ''000000''
       (snd (verify_otp 1 0 ''a@b.c'' ''000000''
         (snd (send_otp 0 0 ''a@b.c'' Map.empty))))))
   = (Invalid 0, [''a@b.c'' \<mapsto> \<lparr>otp = ''100000'', expiresAt = 300000, attempts = 3\<rparr>])"
  by (simp add: verify_otp_def send_otp_def Let_def emailRegex_test_def not_space_or_at_def is_space_def
      generateOTP_def randomInt_def toString_def digit_chars.simps)

text \<open>
  Claim C2, as the code has it.  The upper bound of \<^verbatim>\<open>crypto.randomInt\<close> is exclusive, so
  the code \<open>999999\<close> is never generated; every generated code has exactly 6 decimal digits
  and its first digit is not 0.
\<close>

theorem generateOTP_misses_top:
  "generateOTP e \<noteq> ''999999''
   \<and> length (generateOTP e) = 6
   \<and> list_all is_digit (generateOTP e)
   \<and> hd (generateOTP e) \<noteq> CHR ''0''"
proof -
  let ?n = "nat (randomInt 100000 999999 e)"
  have b: "100000 \<le> ?n" "?n < 999999"
    using randomInt_bounds [of 100000 999999 e] by auto
  have "generateOTP e \<noteq> ''999999''"
  proof
    assume "generateOTP e = ''999999''"
    then have "digit_value (digit_chars ?n) = digit_value ''999999''"
      by (simp add: generateOTP_digits)
    moreover have "digit_value ''999999'' = 999999"
      by (simp add: digit_value_def)
    ultimately have "?n = 999999"
      by (simp only: digit_value_digit_chars)
    with b show False by simp
  qed
  moreover have "hd (generateOTP e) \<noteq> CHR ''0''"
    using b digit_chars_hd [of ?n] by (simp add: generateOTP_digits)
  moreover have "list_all is_digit (generateOTP e)"
    by (simp add: generateOTP_digits digit_chars_all_digits)
  moreover note generateOTP_length [of e]
  ultimately show ?thesis by blast
qed

text \<open>
  Claim C3.  When a record exists and \<open>now\<close> is strictly greater than its \<open>expiresAt\<close>,
  a verify request carrying both fields answers \<open>Expired\<close> and deletes the record,
  whatever the counter is and whether or not the code matches.
\<close>

theorem expired_before_everything:
  assumes "store email = Some r" and "now > expiresAt r"
    and "email \<noteq> []" and "code \<noteq> []"
  shows "verify_otp now e email code store = (Expired, store(email := None))"
  using assms by (simp add: verify_otp_def)

theorem expired_before_everything_witness:
  "300001 > expiresAt \<lparr>otp = ''100000'', expiresAt = 300000, attempts = 3\<rparr>
   \<and> verify_otp 300001 7 ''a@b.c'' ''100000''
        [''a@b.c'' \<mapsto> \<lparr>otp = ''100000'', expiresAt = 300000, attempts = 3\<rparr>]
      = (Expired, Map.empty)"
  using expired_before_everything
    [of "[''a@b.c'' \<mapsto> \<lparr>otp = ''100000'', expiresAt = 300000, attempts = 3\<rparr>]"
        "''a@b.c''" "\<lparr>otp = ''100000'', expiresAt = 300000, attempts = 3\<rparr>" 300001
        "''100000''" 7]
  by simp

text \<open>
  Claim C4.  For a record that is not expired and has a counter below 3, a verify request
  with the stored code answers \<open>Success\<close> with the hexadecimal form (64 characters) of 32
  random bytes and deletes the record; a later verify request for the same address, with
  any code, answers \<open>NotFound\<close>.
\<close>

theorem matching_code_succeeds_once:
  assumes "store email = Some r" and "now \<le> expiresAt r" and "attempts r < 3"
    and "code = otp r" and "email \<noteq> []" and "code \<noteq> []" and "code' \<noteq> []"
  shows "verify_otp now e email code store
           = (Success (toString_hex (randomBytes 32 e)), store(email := None))
    \<and> length (randomBytes 32 e) = 32
    \<and> length (toString_hex (randomBytes 32 e)) = 64
    \<and> list_all is_hex_digit (toString_hex (randomBytes 32 e))
    \<and> verify_otp now' e' email code' (store(email := None))
          = (NotFound, store(email := None))"
proof -
  have "verify_otp now e email code store
           = (Success (toString_hex (randomBytes 32 e)), store(email := None))"
    using assms(1-6) by (auto simp: verify_otp_def Let_def)
  moreover have "verify_otp now' e' email code' (store(email := None))
          = (NotFound, store(email := None))"
    using assms(5,7) by (simp add: verify_otp_def)
  ultimately show ?thesis using token_shape [of e] by blast
qed

theorem matching_code_succeeds_once_witness:
  "verify_otp 1000 0 ''a@b.c'' ''100000''
     [''a@b.c'' \<mapsto> \<lparr>otp = ''100000'', expiresAt = 300000, attempts = 2\<rparr>]
     = (Success (toString_hex (randomBytes 32 0)), Map.empty)
   \<and> length (toString_hex (randomBytes 32 0)) = 64
   \<and> verify_otp 1001 1 ''a@b.c'' ''100000'' Map.empty = (NotFound, Map.empty)"
  using matching_code_succeeds_once
    [of "[''a@b.c'' \<mapsto> \<lparr>otp = ''100000'', expiresAt = 300000, attempts = 2\<rparr>]"
        "''a@b.c''" "\<lparr>otp = ''100000'', expiresAt = 300000, attempts = 2\<rparr>" 1000
        "''100000''" "''100000''" 0 1001 1]
  by simp

text \<open>
  Claim C5.  For a record that is not expired and has a counter below 3, a verify request
  with another code than the stored one adds one to the counter and answers \<open>Invalid\<close>
  with \<^verbatim>\<open>remainingAttempts\<close> equal to 2 minus the counter before the call.
\<close>

theorem wrong_code_counts_attempt:
  assumes "store email = Some r" and "now \<le> expiresAt r" and "attempts r < 3"
    and "code \<noteq> otp r" and "email \<noteq> []" and "code \<noteq> []"
  shows "verify_otp now e email code store
           = (Invalid (2 - attempts r), store(email \<mapsto> r\<lparr>attempts := attempts r + 1\<rparr>))"
  using assms by (auto simp: verify_otp_def Let_def)

theorem wrong_code_counts_attempt_witness:
  "verify_otp 1000 0 ''a@b.c'' ''000000''
     [''a@b.c'' \<mapsto> \<lparr>otp = ''100000'', expiresAt = 300000, attempts = 0\<rparr>]
     = (Invalid 2, [''a@b.c'' \<mapsto> \<lparr>otp = ''100000'', expiresAt = 300000, attempts = 1\<rparr>])
   \<and> verify_otp 1000 0 ''a@b.c'' ''000000''
     [''a@b.c'' \<mapsto> \<lparr>otp = ''100000'', expiresAt = 300000, attempts = 1\<rparr>]
     = (Invalid 1, [''a@b.c'' \<mapsto> \<lparr>otp = ''100000'', expiresAt = 300000, attempts = 2\<rparr>])
   \<and> verify_otp 1000 0 ''a@b.c'' ''000000''
     [''a@b.c'' \<mapsto> \<lparr>otp = ''100000'', expiresAt = 300000, attempts = 2\<rparr>]
     = (Invalid 0, [''a@b.c'' \<mapsto> \<lparr>otp = ''100000'', expiresAt = 300000, attempts = 3\<rparr>])"
  using
    wrong_code_counts_attempt
      [of "[''a@b.c'' \<mapsto> \<lparr>otp = ''100000'', expiresAt = 300000, attempts = 0\<rparr>]"
        "''a@b.c''" "\<lparr>otp = ''100000'', expiresAt = 300000, attempts = 0\<rparr>" 1000
        "''000000''" 0]
    wrong_code_counts_attempt
      [of "[''a@b.c'' \<mapsto> \<lparr>otp = ''100000'', expiresAt = 300000, attempts = 1\<rparr>]"
        "''a@b.c''" "\<lparr>otp = ''100000'', expiresAt = 300000, attempts = 1\<rparr>" 1000
        "''000000''" 0]
    wrong_code_counts_attempt
      [of "[''a@b.c'' \<mapsto> \<lparr>otp = ''100000'', expiresAt = 300000, attempts = 2\<rparr>]"
        "''a@b.c''" "\<lparr>otp = ''100000'', expiresAt = 300000, attempts = 2\<rparr>" 1000
        "''000000''" 0]
  by simp

text \<open>
  Claim C6.  For a record that is not expired and whose counter is already 3 or more, a
  verify request answers \<open>AttemptsExhausted\<close> and deletes the record, whatever code it
  carries: the code is not compared and the counter is not incremented.
\<close>

theorem exhausted_record_rejected_unseen:
  assumes "store email = Some r" and "now \<le> expiresAt r" and "attempts r \<ge> 3"
    and "email \<noteq> []" and "code \<noteq> []"
  shows "verify_otp now e email code store = (AttemptsExhausted, store(email := None))"
  using assms by (simp add: verify_otp_def)

theorem exhausted_record_rejected_unseen_witness:
  "verify_otp 1000 0 ''a@b.c'' ''100000''
     [''a@b.c'' \<mapsto> \<lparr>otp = ''100000'', expiresAt = 300000, attempts = 3\<rparr>]
     = (AttemptsExhausted, Map.empty)
   \<and> verify_otp 1000 0 ''a@b.c'' ''000000''
     [''a@b.c'' \<mapsto> \<lparr>otp = ''100000'', expiresAt = 300000, attempts = 3\<rparr>]
     = (AttemptsExhausted, Map.empty)"
  using
    exhausted_record_rejected_unseen
      [of "[''a@b.c'' \<mapsto> \<lparr>otp = ''100000'', expiresAt = 300000, attempts = 3\<rparr>]"
        "''a@b.c''" "\<lparr>otp = ''100000'', expiresAt = 300000, attempts = 3\<rparr>" 1000
        "''100000''" 0]
    exhausted_record_rejected_unseen
      [of "[''a@b.c'' \<mapsto> \<lparr>otp = ''100000'', expiresAt = 300000, attempts = 3\<rparr>]"
        "''a@b.c''" "\<lparr>otp = ''100000'', expiresAt = 300000, attempts = 3\<rparr>" 1000
        "''000000''" 0]
  by simp

text \<open>
  Claim C7, as the code has it.  A send request for an accepted address replaces the record
  of that address by one with the new code, \<open>attempts = 0\<close> and \<open>expiresAt\<close> equal to
  \<open>now\<close> plus 300000 ms.  After two send requests, if the two codes differ and the second
  record is not expired, the first code is answered \<open>Invalid\<close> with 2 remaining attempts
  and the second code is answered \<open>Success\<close>, also after the first code was tried.
\<close>

theorem reissue_replaces_record:
  assumes "email \<noteq> []" and "emailRegex_test email"
    and "s1 = snd (send_otp now1 e1 email store)"
    and "s2 = snd (send_otp now2 e2 email s1)"
    and "generateOTP e1 \<noteq> generateOTP e2"
    and "now \<le> now2 + 300000"
  shows "send_otp now1 e1 email store
           = (OtpGenerated (generateOTP e1),
              store(email \<mapsto> \<lparr>otp = generateOTP e1, expiresAt = now1 + 300000, attempts = 0\<rparr>))
    \<and> send_otp now2 e2 email s1
           = (OtpGenerated (generateOTP e2),
              store(email \<mapsto> \<lparr>otp = generateOTP e2, expiresAt = now2 + 300000, attempts = 0\<rparr>))
    \<and> verify_otp now e email (generateOTP e1) s2
           = (Invalid 2,
              store(email \<mapsto> \<lparr>otp = generateOTP e2, expiresAt = now2 + 300000, attempts = 1\<rparr>))
    \<and> verify_otp now e email (generateOTP e2) s2
           = (Success (toString_hex (randomBytes 32 e)), store(email := None))
    \<and> verify_otp now e' email (generateOTP e2)
          (snd (verify_otp now e email (generateOTP e1) s2))
           = (Success (toString_hex (randomBytes 32 e')), store(email := None))"
proof -
  let ?r1 = "\<lparr>otp = generateOTP e1, expiresAt = now1 + 300000, attempts = 0\<rparr>"
  let ?r2 = "\<lparr>otp = generateOTP e2, expiresAt = now2 + 300000, attempts = 0\<rparr>"
  have first: "send_otp now1 e1 email store = (OtpGenerated (generateOTP e1), store(email \<mapsto> ?r1))"
    using assms(1,2) by (rule send_otp_accepts)
  then have s1: "s1 = store(email \<mapsto> ?r1)" using assms(3) by simp
  have "send_otp now2 e2 email s1 = (OtpGenerated (generateOTP e2), s1(email \<mapsto> ?r2))"
    using assms(1,2) by (rule send_otp_accepts)
  then have second: "send_otp now2 e2 email s1 = (OtpGenerated (generateOTP e2), store(email \<mapsto> ?r2))"
    using s1 by simp
  then have s2: "s2 = store(email \<mapsto> ?r2)" using assms(4) by simp
  have ne: "generateOTP e1 \<noteq> []" "generateOTP e2 \<noteq> []"
    by (rule generateOTP_nonempty)+
  have old: "verify_otp now e email (generateOTP e1) s2
           = (Invalid 2, store(email \<mapsto> ?r2\<lparr>attempts := 1\<rparr>))"
    using assms(1,5,6) ne s2 by (auto simp: verify_otp_def Let_def)
  have new: "verify_otp now e email (generateOTP e2) s2
           = (Success (toString_hex (randomBytes 32 e)), store(email := None))"
    using assms(1,6) ne s2 by (auto simp: verify_otp_def Let_def)
  have after: "verify_otp now e' email (generateOTP e2) (store(email \<mapsto> ?r2\<lparr>attempts := 1\<rparr>))
           = (Success (toString_hex (randomBytes 32 e')), store(email := None))"
    using assms(1,6) ne by (auto simp: verify_otp_def Let_def)
  from first second old new after show ?thesis by simp
qed

theorem reissue_replaces_record_witness:
  "generateOTP 7 \<noteq> generateOTP 42
   \<and> send_otp 10 7 ''a@b.c'' Map.empty
       = (OtpGenerated ''100007'',
          [''a@b.c'' \<mapsto> \<lparr>otp = ''100007'', expiresAt = 300010, attempts = 0\<rparr>])
   \<and> send_otp 20 42 ''a@b.c'' (snd (send_otp 10 7 ''a@b.c'' Map.empty))
       = (OtpGenerated ''100042'',
          [''a@b.c'' \<mapsto> \<lparr>otp = ''100042'', expiresAt = 300020, attempts = 0\<rparr>])
   \<and> verify_otp 30 0 ''a@b.c'' ''100007''
        (snd (send_otp 20 42 ''a@b.c'' (snd (send_otp 10 7 ''a@b.c'' Map.empty))))
       = (Invalid 2, [''a@b.c'' \<mapsto> \<lparr>otp = ''100042'', expiresAt = 300020, attempts = 1\<rparr>])
   \<and> verify_otp 30 0 ''a@b.c'' ''100042''
        (snd (send_otp 20 42 ''a@b.c'' (snd (send_otp 10 7 ''a@b.c'' Map.empty))))
       = (Success (toString_hex (randomBytes 32 0)), Map.empty)"
proof -
  have g: "generateOTP 7 = ''100007''" "generateOTP 42 = ''100042''"
    by (simp_all add: generateOTP_def randomInt_def toString_def digit_chars.simps)
  have v: "''a@b.c'' \<noteq> []" "emailRegex_test ''a@b.c''"
    by (simp_all add: emailRegex_test_def not_space_or_at_def is_space_def)
  have d: "generateOTP 7 \<noteq> generateOTP 42"
    by (simp add: g)
  have t: "(30::int) \<le> 20 + 300000"
    by simp
  have "send_otp 10 7 ''a@b.c'' Map.empty
       = (OtpGenerated (generateOTP 7),
          [''a@b.c'' \<mapsto> \<lparr>otp = generateOTP 7, expiresAt = 10 + 300000, attempts = 0\<rparr>])
   \<and> send_otp 20 42 ''a@b.c'' (snd (send_otp 10 7 ''a@b.c'' Map.empty))
       = (OtpGenerated (generateOTP 42),
          [''a@b.c'' \<mapsto> \<lparr>otp = generateOTP 42, expiresAt = 20 + 300000, attempts = 0\<rparr>])
   \<and> verify_otp 30 0 ''a@b.c'' (generateOTP 7)
        (snd (send_otp 20 42 ''a@b.c'' (snd (send_otp 10 7 ''a@b.c'' Map.empty))))
       = (Invalid 2,
          [''a@b.c'' \<mapsto> \<lparr>otp = generateOTP 42, expiresAt = 20 + 300000, attempts = 1\<rparr>])
   \<and> verify_otp 30 0 ''a@b.c'' (generateOTP 42)
        (snd (send_otp 20 42 ''a@b.c'' (snd (send_otp 10 7 ''a@b.c'' Map.empty))))
       = (Success (toString_hex (randomBytes 32 0)), Map.empty(''a@b.c'' := None))
   \<and> verify_otp 30 0 ''a@b.c'' (generateOTP 42)
        (snd (verify_otp 30 0 ''a@b.c'' (generateOTP 7)
           (snd (send_otp 20 42 ''a@b.c'' (snd (send_otp 10 7 ''a@b.c'' Map.empty))))))
       = (Success (toString_hex (randomBytes 32 0)), Map.empty(''a@b.c'' := None))"
    by (rule reissue_replaces_record [OF v refl refl d t])
  then show ?thesis
    using d by (auto simp: g)
qed

text \<open>
  Against C7 as stated: nothing keeps two draws apart.  When both send requests generate
  the code \<open>100005\<close>, verifying with the first code succeeds.
\<close>

theorem reissue_same_code_counterexample:
  "fst (send_otp 10 5 ''a@b.c'' Map.empty) = OtpGenerated ''100005''
   \<and> fst (send_otp 20 900004 ''a@b.c'' (snd (send_otp 10 5 ''a@b.c'' Map.empty)))
       = OtpGenerated ''100005''
   \<and> verify_otp 30 0 ''a@b.c'' ''100005''
        (snd (send_otp 20 900004 ''a@b.c'' (snd (send_otp 10 5 ''a@b.c'' Map.empty))))
       = (Success (toString_hex (randomBytes 32 0)), Map.empty)"
  by (simp add: verify_otp_def send_otp_def Let_def emailRegex_test_def not_space_or_at_def
      is_space_def generateOTP_def randomInt_def toString_def digit_chars.simps)

text \<open>
  Claim C8.  A verify request carrying both fields, for an address without a record,
  answers \<open>NotFound\<close> and changes nothing: in the empty store, in any store without a record
  for the address, and in the store left by a call that answered \<open>Expired\<close>,
  \<open>AttemptsExhausted\<close> or \<open>Success\<close> for the address.  The answer is the same in all cases.
\<close>

theorem no_record_not_found:
  assumes "email \<noteq> []" and "code \<noteq> []"
    and "store email = None"
    and "verify_otp now0 e0 email code0 store0 = (res, store1)"
    and "res = Expired \<or> res = AttemptsExhausted \<or> res = Success tok"
  shows "verify_otp now e email code Map.empty = (NotFound, Map.empty)
    \<and> verify_otp now e email code store = (NotFound, store)
    \<and> verify_otp now e email code store1 = (NotFound, store1)"
proof -
  have gone: "store1 email = None"
    using assms(4,5)
    by (auto simp: verify_otp_def Let_def split: if_splits option.splits)
  have "\<And>s. s email = None \<Longrightarrow> verify_otp now e email code s = (NotFound, s)"
    using assms(1,2) by (simp add: verify_otp_def)
  with gone assms(3) show ?thesis by simp
qed

theorem no_record_not_found_witness:
  "verify_otp 300001 0 ''a@b.c'' ''100000''
      [''a@b.c'' \<mapsto> \<lparr>otp = ''100000'', expiresAt = 300000, attempts = 0\<rparr>]
     = (Expired, Map.empty)
   \<and> verify_otp 300002 0 ''a@b.c'' ''100000'' Map.empty = (NotFound, Map.empty)
   \<and> verify_otp 300002 0 ''a@b.c'' ''100000''
        [''d@e.f'' \<mapsto> \<lparr>otp = ''100000'', expiresAt = 300000, attempts = 0\<rparr>]
       = (NotFound, [''d@e.f'' \<mapsto> \<lparr>otp = ''100000'', expiresAt = 300000, attempts = 0\<rparr>])"
proof -
  have first: "verify_otp 300001 0 ''a@b.c'' ''100000''
      [''a@b.c'' \<mapsto> \<lparr>otp = ''100000'', expiresAt = 300000, attempts = 0\<rparr>]
     = (Expired, Map.empty)"
    by (simp add: verify_otp_def)
  have "[''d@e.f'' \<mapsto> \<lparr>otp = ''100000'', expiresAt = 300000, attempts = 0\<rparr>] ''a@b.c'' = None"
    by simp
  with first show ?thesis
    using no_record_not_found
      [of "''a@b.c''" "''100000''"
          "[''d@e.f'' \<mapsto> \<lparr>otp = ''100000'', expiresAt = 300000, attempts = 0\<rparr>]"
          300001 0 "''100000''"
          "[''a@b.c'' \<mapsto> \<lparr>otp = ''100000'', expiresAt = 300000, attempts = 0\<rparr>]"
          Expired Map.empty "[]" 300002 0]
    by simp
qed

text \<open>
  Claim C9.  At \<open>now = expiresAt\<close> the record is still live: with the stored code and a
  counter below 3 the answer is \<open>Success\<close>.  One millisecond later it is \<open>Expired\<close>.
\<close>

theorem expiry_instant_still_live:
  assumes "store email = Some r" and "now = expiresAt r" and "attempts r < 3"
    and "code = otp r" and "email \<noteq> []" and "code \<noteq> []"
  shows "verify_otp now e email code store
           = (Success (toString_hex (randomBytes 32 e)), store(email := None))
    \<and> verify_otp (now + 1) e email code store = (Expired, store(email := None))"
  using assms by (auto simp: verify_otp_def Let_def)

theorem expiry_instant_still_live_witness:
  "verify_otp 300000 0 ''a@b.c'' ''100000''
      [''a@b.c'' \<mapsto> \<lparr>otp = ''100000'', expiresAt = 300000, attempts = 0\<rparr>]
     = (Success (toString_hex (randomBytes 32 0)), Map.empty)
   \<and> verify_otp 300001 0 ''a@b.c'' ''100000''
      [''a@b.c'' \<mapsto> \<lparr>otp = ''100000'', expiresAt = 300000, attempts = 0\<rparr>]
     = (Expired, Map.empty)"
  using expiry_instant_still_live
    [of "[''a@b.c'' \<mapsto> \<lparr>otp = ''100000'', expiresAt = 300000, attempts = 0\<rparr>]"
        "''a@b.c''" "\<lparr>otp = ''100000'', expiresAt = 300000, attempts = 0\<rparr>" 300000
        "''100000''" 0]
  by simp

text \<open>
  Claim C10.  In every state the server can reach, a send or verify request for the address
  \<open>x\<close> leaves every other address \<open>y\<close> as it was: the same reference under the key and
  the same record behind it (or none).  The answer to a verify request for \<open>x\<close>, and the
  record of \<open>x\<close> afterwards, depend on the record of \<open>x\<close> only; so do the answer to a
  send request for \<open>x\<close> and the record of \<open>x\<close> after it.
\<close>

theorem other_identities_untouched:
  assumes "reachable_ref st" and "x \<noteq> y"
    and "reachable_ref st2" and "stored st2 x = stored st x"
  shows "otpStore (snd (send_otp_ref now e x st)) y = otpStore st y
    \<and> stored (snd (send_otp_ref now e x st)) y = stored st y
    \<and> otpStore (snd (verify_otp_ref now e x code st)) y = otpStore st y
    \<and> stored (snd (verify_otp_ref now e x code st)) y = stored st y
    \<and> fst (verify_otp_ref now e x code st2) = fst (verify_otp_ref now e x code st)
    \<and> stored (snd (verify_otp_ref now e x code st2)) x
          = stored (snd (verify_otp_ref now e x code st)) x
    \<and> fst (send_otp_ref now e x st2) = fst (send_otp_ref now e x st)
    \<and> stored (snd (send_otp_ref now e x st2)) x = stored (snd (send_otp_ref now e x st)) x"
proof -
  from assms(1,3) have u: "unshared st" and u2: "unshared st2"
    by (simp_all add: reachable_ref_unshared)
  have "otpStore (snd (send_otp_ref now e x st)) y = otpStore st y"
    using assms(2) by (simp add: send_otp_ref_def Let_def)
  moreover have "stored (snd (send_otp_ref now e x st)) y = stored st y"
    using assms(2) by (simp add: send_otp_ref_refines(2) [OF u] send_otp_frame)
  moreover have "otpStore (snd (verify_otp_ref now e x code st)) y = otpStore st y"
    using assms(2) by (simp add: verify_otp_ref_def Let_def split: option.splits)
  moreover have "stored (snd (verify_otp_ref now e x code st)) y = stored st y"
    using assms(2) by (simp add: verify_otp_ref_refines(2) [OF u] verify_otp_frame)
  moreover have "fst (verify_otp_ref now e x code st2) = fst (verify_otp_ref now e x code st)"
    using assms(4) verify_otp_local(1) [of "stored st2" x "stored st" now e code]
    by (simp add: verify_otp_ref_refines(1) [OF u] verify_otp_ref_refines(1) [OF u2])
  moreover have "stored (snd (verify_otp_ref now e x code st2)) x
          = stored (snd (verify_otp_ref now e x code st)) x"
    using assms(4) verify_otp_local(2) [of "stored st2" x "stored st" now e code]
    by (simp add: verify_otp_ref_refines(2) [OF u] verify_otp_ref_refines(2) [OF u2])
  moreover have "fst (send_otp_ref now e x st2) = fst (send_otp_ref now e x st)"
    using assms(4) send_otp_local(1) [of "stored st2" x "stored st" now e]
    by (simp add: send_otp_ref_refines(1) [OF u] send_otp_ref_refines(1) [OF u2])
  moreover have "stored (snd (send_otp_ref now e x st2)) x
          = stored (snd (send_otp_ref now e x st)) x"
    using assms(4) send_otp_local(2) [of "stored st2" x "stored st" now e]
    by (simp add: send_otp_ref_refines(2) [OF u] send_otp_ref_refines(2) [OF u2])
  ultimately show ?thesis by blast
qed

theorem other_identities_untouched_witness:
  "stored (snd (send_otp_ref 5 42 ''a@b.c'' (snd (send_otp_ref 0 7 ''d@e.f'' initial_state))))
     ''d@e.f''
     = Some \<lparr>otp = ''100007'', expiresAt = 300000, attempts = 0\<rparr>
   \<and> stored (snd (verify_otp_ref 10 0 ''a@b.c'' ''000000''
        (snd (send_otp_ref 5 42 ''a@b.c'' (snd (send_otp_ref 0 7 ''d@e.f'' initial_state))))))
        ''d@e.f''
     = Some \<lparr>otp = ''100007'', expiresAt = 300000, attempts = 0\<rparr>
   \<and> fst (verify_otp_ref 10 0 ''a@b.c'' ''000000''
        (snd (send_otp_ref 5 42 ''a@b.c'' initial_state)))
     = fst (verify_otp_ref 10 0 ''a@b.c'' ''000000''
        (snd (send_otp_ref 5 42 ''a@b.c'' (snd (send_otp_ref 0 7 ''d@e.f'' initial_state)))))
   \<and> fst (send_otp_ref 10 0 ''a@b.c'' (snd (send_otp_ref 5 42 ''a@b.c'' initial_state)))
     = fst (send_otp_ref 10 0 ''a@b.c''
        (snd (send_otp_ref 5 42 ''a@b.c'' (snd (send_otp_ref 0 7 ''d@e.f'' initial_state)))))"
proof -
  let ?st = "snd (send_otp_ref 5 42 ''a@b.c'' (snd (send_otp_ref 0 7 ''d@e.f'' initial_state)))"
  let ?st2 = "snd (send_otp_ref 5 42 ''a@b.c'' initial_state)"
  have r: "reachable_ref ?st"
    by (intro reachable_ref.send_ref reachable_ref.start_ref)
  have r2: "reachable_ref ?st2"
    by (intro reachable_ref.send_ref reachable_ref.start_ref)
  have n: "''a@b.c'' \<noteq> ''d@e.f''"
    by simp
  have s: "stored ?st ''d@e.f'' = Some \<lparr>otp = ''100007'', expiresAt = 300000, attempts = 0\<rparr>"
    by (simp add: stored_def send_otp_ref_def initial_state_def Let_def emailRegex_test_def
        not_space_or_at_def is_space_def generateOTP_def randomInt_def toString_def
        digit_chars.simps)
  have same: "stored ?st2 ''a@b.c'' = stored ?st ''a@b.c''"
    by (simp add: stored_def send_otp_ref_def initial_state_def Let_def emailRegex_test_def
        not_space_or_at_def is_space_def generateOTP_def randomInt_def toString_def
        digit_chars.simps)
  from other_identities_untouched [OF r n r2 same, of 10 0 "''000000''"] s
  show ?thesis by simp
qed

end
